theory Spec2Isabelle
  imports Main "HOL-Library.Finite_Map"
begin

section \<open>Python string operations used by the sources\<close>

text \<open>
  A string is a list of characters, and a character is a code point below 256 (the
  Latin-1 range, which holds ASCII); a Python string with a higher code point is outside the
  model. On this range \<open>str.lower\<close> maps character by character: \<open>A\<close> to \<open>Z\<close> and the
  letters \<open>0xC0\<close> to \<open>0xDE\<close> (without the multiplication sign \<open>0xD7\<close>) go to the
  character 32 places further, every other character stays.
\<close>

definition latin1_upper :: string where
  "latin1_upper =
     ''ABCDEFGHIJKLMNOPQRSTUVWXYZ'' @
     [CHR 0xC0, CHR 0xC1, CHR 0xC2, CHR 0xC3, CHR 0xC4, CHR 0xC5, CHR 0xC6, CHR 0xC7,
      CHR 0xC8, CHR 0xC9, CHR 0xCA, CHR 0xCB, CHR 0xCC, CHR 0xCD, CHR 0xCE, CHR 0xCF,
      CHR 0xD0, CHR 0xD1, CHR 0xD2, CHR 0xD3, CHR 0xD4, CHR 0xD5, CHR 0xD6, CHR 0xD8,
      CHR 0xD9, CHR 0xDA, CHR 0xDB, CHR 0xDC, CHR 0xDD, CHR 0xDE]"

definition latin1_lower :: string where
  "latin1_lower =
     ''abcdefghijklmnopqrstuvwxyz'' @
     [CHR 0xE0, CHR 0xE1, CHR 0xE2, CHR 0xE3, CHR 0xE4, CHR 0xE5, CHR 0xE6, CHR 0xE7,
      CHR 0xE8, CHR 0xE9, CHR 0xEA, CHR 0xEB, CHR 0xEC, CHR 0xED, CHR 0xEE, CHR 0xEF,
      CHR 0xF0, CHR 0xF1, CHR 0xF2, CHR 0xF3, CHR 0xF4, CHR 0xF5, CHR 0xF6, CHR 0xF8,
      CHR 0xF9, CHR 0xFA, CHR 0xFB, CHR 0xFC, CHR 0xFD, CHR 0xFE]"

definition lower_char :: "char \<Rightarrow> char" where
  "lower_char c =
     (case map_of (zip latin1_upper latin1_lower) c of
        Some d \<Rightarrow> d
      | None \<Rightarrow> c)"

definition lower :: "string \<Rightarrow> string" where
  "lower s = map lower_char s"

text \<open>
  \<open>str.isspace\<close> on this range, the characters that \<open>str.strip()\<close> removes: tab, line
  feed, vertical tab, form feed, carriage return, the four separators \<open>0x1C\<close> to \<open>0x1F\<close>,
  the space, the next-line character \<open>0x85\<close> and the no-break space \<open>0xA0\<close>.
\<close>

definition isspace :: "char \<Rightarrow> bool" where
  "isspace c = (c \<in> set [CHR 0x09, CHR 0x0A, CHR 0x0B, CHR 0x0C, CHR 0x0D,
                           CHR 0x1C, CHR 0x1D, CHR 0x1E, CHR 0x1F, CHR 0x20,
                           CHR 0x85, CHR 0xA0])"

text \<open>\<open>s.rstrip(chars)\<close>: drops every trailing character that occurs in \<open>chars\<close>.\<close>

definition rstrip_chars :: "string \<Rightarrow> string \<Rightarrow> string" where
  "rstrip_chars chars s = rev (dropWhile (\<lambda>c. c \<in> set chars) (rev s))"

text \<open>\<open>s.strip()\<close>: drops leading and trailing whitespace.\<close>

definition strip :: "string \<Rightarrow> string" where
  "strip s = rev (dropWhile isspace (rev (dropWhile isspace s)))"

text \<open>
  \<open>s.split(sep)\<close> for a one-character separator: the pieces between the occurrences of
  \<open>sep\<close>; the result is never empty.
\<close>

fun split :: "char \<Rightarrow> string \<Rightarrow> string list" where
  "split sep [] = [[]]"
| "split sep (c # cs) =
     (if c = sep then [] # split sep cs
      else (case split sep cs of
              [] \<Rightarrow> [[c]]
            | piece # pieces \<Rightarrow> (c # piece) # pieces))"

text \<open>\<open>sub in s\<close> for strings: \<open>sub\<close> occurs as a contiguous piece of \<open>s\<close>.\<close>

fun startswith :: "string \<Rightarrow> string \<Rightarrow> bool" where
  "startswith s [] = True"
| "startswith [] (p # ps) = False"
| "startswith (c # cs) (p # ps) = (if c = p then startswith cs ps else False)"

fun contains :: "string \<Rightarrow> string \<Rightarrow> bool" where
  "contains [] sub = (sub = [])"
| "contains (c # cs) sub = (if startswith (c # cs) sub then True else contains cs sub)"


section \<open>Key normalizer (\<open>visited_links_manager.py\<close>)\<close>

text \<open>
  \<open>VisitedLinksManager._normalize_url\<close>: the empty string for an empty URL; otherwise the
  URL lower-cased, stripped of surrounding whitespace and then of its trailing slashes, and,
  when a question mark is left, cut before the first one.
\<close>

definition normalize_url :: "string \<Rightarrow> string" where
  "normalize_url url =
     (if url = [] then []
      else let normalized = rstrip_chars ''/'' (strip (lower url))
           in if CHR ''?'' \<in> set normalized then hd (split (CHR ''?'') normalized)
              else normalized)"

text \<open>
  The normalizer as the specification words it: lower-case, trim whitespace, strip a single
  trailing path separator, strip everything from the first question mark onward.
\<close>

definition strip_one_separator :: "string \<Rightarrow> string" where
  "strip_one_separator s = (if s = [] then [] else if last s = CHR ''/'' then butlast s else s)"

definition normalizeLink_spec :: "string \<Rightarrow> string" where
  "normalizeLink_spec raw =
     takeWhile (\<lambda>c. c \<noteq> CHR ''?'') (strip_one_separator (strip (lower raw)))"


section \<open>Regular expressions of the validators\<close>

text \<open>
  The validators use one anchored pattern of Python's \<open>re\<close> module, built from character
  classes, concatenation and repetition only. Such a pattern is modelled as a regular
  expression over character classes and matched by derivatives; \<open>seq\<close> and \<open>alt\<close> drop the
  branches that can no longer match.
\<close>

datatype rx = RNone | REps | RCls string | RSeq rx rx | RAlt rx rx | RStar rx

fun nullable :: "rx \<Rightarrow> bool" where
  "nullable RNone = False"
| "nullable REps = True"
| "nullable (RCls cs) = False"
| "nullable (RSeq r s) = (if nullable r then nullable s else False)"
| "nullable (RAlt r s) = (if nullable r then True else nullable s)"
| "nullable (RStar r) = True"

fun seq :: "rx \<Rightarrow> rx \<Rightarrow> rx" where
  "seq RNone s = RNone"
| "seq REps s = s"
| "seq r s = RSeq r s"

fun alt :: "rx \<Rightarrow> rx \<Rightarrow> rx" where
  "alt RNone s = s"
| "alt r RNone = r"
| "alt r s = RAlt r s"

fun deriv :: "char \<Rightarrow> rx \<Rightarrow> rx" where
  "deriv c RNone = RNone"
| "deriv c REps = RNone"
| "deriv c (RCls cs) = (if c \<in> set cs then REps else RNone)"
| "deriv c (RSeq r s) =
     (if nullable r then alt (seq (deriv c r) s) (deriv c s) else seq (deriv c r) s)"
| "deriv c (RAlt r s) = alt (deriv c r) (deriv c s)"
| "deriv c (RStar r) = seq (deriv c r) (RStar r)"

definition fullmatch :: "rx \<Rightarrow> string \<Rightarrow> bool" where
  "fullmatch r s = nullable (foldl (\<lambda>q c. deriv c q) r s)"

text \<open>
  \<open>re.match('^...$', s)\<close>: the pattern matches the whole of \<open>s\<close>, or the whole of \<open>s\<close>
  without its final line feed, since \<open>$\<close> also matches just before a line feed that ends
  the string.
\<close>

definition re_match_anchored :: "rx \<Rightarrow> string \<Rightarrow> bool" where
  "re_match_anchored r s =
     (if fullmatch r s then True
      else if s = [] then False
      else if last s = CHR 0x0A then fullmatch r (butlast s)
      else False)"

definition endswith :: "string \<Rightarrow> string \<Rightarrow> bool" where
  "endswith s suffix = startswith (rev s) (rev suffix)"

text \<open>
  \<open>re.search(lit + '$', s)\<close> for a literal text \<open>lit\<close> (the patterns
  \<open>\.comp$\<close>, \<open>\.comcall$\<close>, ... of \<open>clean_emails.py\<close>).
\<close>

definition re_search_at_end :: "string \<Rightarrow> string \<Rightarrow> bool" where
  "re_search_at_end lit s =
     (if endswith s lit then True else endswith s (lit @ [CHR 0x0A]))"

definition letters :: string where
  "letters = ''abcdefghijklmnopqrstuvwxyzABCDEFGHIJKLMNOPQRSTUVWXYZ''"

definition digits :: string where
  "digits = ''0123456789''"

text \<open>\<open>r+\<close>: one or more repetitions.\<close>

definition one_or_more :: "rx \<Rightarrow> rx" where
  "one_or_more r = RSeq r (RStar r)"

text \<open>The pattern \<open>^[a-zA-Z0-9._%+-]+@[a-zA-Z0-9.-]+\.[a-zA-Z]{2,}$\<close> of both validators.\<close>

definition email_regex :: rx where
  "email_regex =
     RSeq (one_or_more (RCls (letters @ digits @ ''._%+-'')))
    (RSeq (RCls ''@'')
    (RSeq (one_or_more (RCls (letters @ digits @ ''.-'')))
    (RSeq (RCls ''.'')
    (RSeq (RCls letters) (RSeq (RCls letters) (RStar (RCls letters)))))))"


section \<open>Contact validators\<close>

text \<open>\<open>CVAutomationSystem.validate_email\<close> (\<open>run_system.py\<close>).\<close>

definition rejected_patterns :: "string list" where
  "rejected_patterns =
     [''noreply'', ''no-reply'', ''donotreply'', ''do-not-reply'',
      ''test'', ''example'', ''localhost'', ''admin@'',
      ''.comp'', ''.comcall'', ''.co.uk.'', ''.sa.'', ''.ae.'']"

definition validate_email :: "string \<Rightarrow> bool" where
  "validate_email email =
     (if email = [] then False
      else if CHR ''@'' \<notin> set email then False
      else if list_ex (contains (lower email)) rejected_patterns then False
      else re_match_anchored email_regex email)"

text \<open>
  \<open>is_valid_email\<close> (\<open>clean_emails.py\<close>). The domain is \<open>email.split('@')[1]\<close>; the pattern
  has matched by then, so the address holds exactly one \<open>@\<close> and the index is in range.
\<close>

definition malformed_patterns :: "string list" where
  "malformed_patterns =
     [''.comp'', ''.comcall'', ''.comfull'', ''.comgiza'', ''.com.sa.sa'', ''.com.ae.ae'']"

definition is_valid_email :: "string \<Rightarrow> bool" where
  "is_valid_email email =
     (if email = [] then False
      else if CHR ''@'' \<notin> set email then False
      else if \<not> re_match_anchored email_regex email then False
      else let domain = split (CHR ''@'') email ! 1
           in if list_ex (\<lambda>pattern. re_search_at_end pattern domain) malformed_patterns
              then False
              else if length domain < 4 then False
              else True)"


section \<open>Outreach ledger (\<open>run_system.py\<close>)\<close>

text \<open>
  The ledger of \<open>CVAutomationSystem\<close> is two CSV files: \<open>companies_emails.csv\<close>
  (\<open>self.csv_file\<close>), one row per discovered company, and \<open>sent_emails.csv\<close>
  (\<open>self.sent_emails_file\<close>), one row per recorded outcome. A file is missing; or present
  but not readable as a table with the expected columns (\<open>pd.read_csv\<close> or a column access
  raises); or a table of rows, in file order, that can be read but not written back
  (\<open>to_csv\<close> raises); or a table of rows that can be read and written back. Cells are text
  that pandas reads back as written.
\<close>

datatype 'r csv = Missing | Unreadable | Read_only "'r list" | Table "'r list"

text \<open>A scraped company: the dictionary with the keys \<open>name\<close>, \<open>email\<close> and \<open>url\<close>
  (fields \<open>co_name\<close>, \<open>co_email\<close>, \<open>co_url\<close>).\<close>

record company =
  co_name :: string
  co_email :: string
  co_url :: string

text \<open>
  A row of \<open>companies_emails.csv\<close>; each column carries the prefix \<open>row_\<close> here.
\<close>

record company_row =
  row_company_name :: string
  row_email :: string
  row_source_url :: string
  row_city :: string
  row_country :: string

text \<open>
  A row of \<open>sent_emails.csv\<close>; the columns \<open>email\<close>, \<open>company_name\<close> and
  \<open>status\<close> carry the prefix \<open>sent_\<close> here.
\<close>

record sent_row =
  sent_email :: string
  sent_company_name :: string
  sent_date :: string
  sent_status :: string

record ledger =
  csv_file :: "company_row csv"
  sent_emails_file :: "sent_row csv"

text \<open>\<open>pd.read_csv\<close>: the rows, or \<open>None\<close> where it raises.\<close>

definition read_csv :: "'r csv \<Rightarrow> 'r list option" where
  "read_csv f =
     (case f of
        Table rows \<Rightarrow> Some rows
      | Read_only rows \<Rightarrow> Some rows
      | Missing \<Rightarrow> None
      | Unreadable \<Rightarrow> None)"

text \<open>\<open>df.to_csv\<close>: the file rewritten with the rows, or \<open>None\<close> where it raises.\<close>

definition to_csv :: "'r csv \<Rightarrow> 'r list \<Rightarrow> 'r csv option" where
  "to_csv f rows =
     (case f of
        Read_only old \<Rightarrow> None
      | Table old \<Rightarrow> Some (Table rows)
      | Missing \<Rightarrow> Some (Table rows)
      | Unreadable \<Rightarrow> Some (Table rows))"

text \<open>\<open>setup_csv_files\<close>: a file that does not exist is created with its header only.\<close>

definition setup_csv_files :: "ledger \<Rightarrow> ledger" where
  "setup_csv_files L =
     (let L1 = (if csv_file L = Missing then L\<lparr>csv_file := Table []\<rparr> else L)
      in if sent_emails_file L1 = Missing then L1\<lparr>sent_emails_file := Table []\<rparr> else L1)"

text \<open>
  \<open>save_companies_to_csv\<close>. The table is read once, before the loop; a company whose e-mail
  is in that table is skipped, every other one gives a new row; the rows are appended and
  written when there is at least one. An exception, of the read or of the write, is logged
  and the file is left as it was.
  \<open>get_country_from_city\<close> is a fixed table of city names, passed as a parameter.
\<close>

definition save_companies_to_csv ::
  "(string \<Rightarrow> string) \<Rightarrow> company list \<Rightarrow> string \<Rightarrow> ledger \<Rightarrow> ledger" where
  "save_companies_to_csv get_country_from_city companies city_name L =
     (case read_csv (csv_file L) of
        None \<Rightarrow> L
      | Some df \<Rightarrow>
          (let new_data =
                 map (\<lambda>c. \<lparr>row_company_name = co_name c, row_email = co_email c,
                             row_source_url = co_url c, row_city = city_name,
                             row_country = get_country_from_city city_name\<rparr>)
                   (filter (\<lambda>c. \<not> co_email c \<in> set (map row_email df)) companies)
           in if new_data = [] then L
              else (case to_csv (csv_file L) (df @ new_data) of
                      None \<Rightarrow> L
                    | Some written \<Rightarrow> L\<lparr>csv_file := written\<rparr>)))"

text \<open>
  \<open>mark_email_as_sent\<close>: reads the outcome table and writes it back with one more row.
  \<open>now\<close> is the formatted \<open>datetime.now()\<close>. The method returns \<open>None\<close> on every path;
  an exception, of the read or of the write, is logged and the file is left as it was.
\<close>

definition mark_email_as_sent ::
  "string \<Rightarrow> string \<Rightarrow> string \<Rightarrow> string \<Rightarrow> ledger \<Rightarrow> ledger" where
  "mark_email_as_sent address cname now st L =
     (case read_csv (sent_emails_file L) of
        None \<Rightarrow> L
      | Some df \<Rightarrow>
          (case to_csv (sent_emails_file L)
                  (df @ [\<lparr>sent_email = address, sent_company_name = cname,
                           sent_date = now, sent_status = st\<rparr>]) of
             None \<Rightarrow> L
           | Some written \<Rightarrow> L\<lparr>sent_emails_file := written\<rparr>))"

text \<open>
  \<open>DataFrame.head(n)\<close>: the first \<open>n\<close> rows; for a negative \<open>n\<close>, all rows but the last
  \<open>-n\<close>.
\<close>

definition head :: "int \<Rightarrow> 'a list \<Rightarrow> 'a list" where
  "head n xs = (if n < 0 then take (length xs - nat (- n)) xs else take (nat n) xs)"

text \<open>
  \<open>get_unsent_emails\<close>: the first \<open>limit\<close> company rows whose e-mail is in no outcome row.
  It only reads the two files; on an exception it returns the empty list.
\<close>

definition get_unsent_emails :: "int \<Rightarrow> ledger \<Rightarrow> company_row list" where
  "get_unsent_emails limit L =
     (case read_csv (csv_file L) of
        None \<Rightarrow> []
      | Some companies_df \<Rightarrow>
          (case read_csv (sent_emails_file L) of
             None \<Rightarrow> []
           | Some sent_df \<Rightarrow>
               (let sent_emails = map sent_email sent_df
                in head limit
                     (filter (\<lambda>r. \<not> row_email r \<in> set sent_emails) companies_df))))"

text \<open>
  The loop of \<open>send_emails_job\<close> over a batch: each company is sent to and its outcome
  recorded, \<open>sent\<close> or \<open>failed\<close>. \<open>send_email\<close> (the SMTP delivery) is a parameter that
  tells whether the delivery succeeds.
\<close>

definition send_batch ::
  "(string \<Rightarrow> string \<Rightarrow> bool) \<Rightarrow> string \<Rightarrow> company_row list \<Rightarrow> ledger \<Rightarrow> ledger" where
  "send_batch send_email now unsent_emails L =
     foldl (\<lambda>L1 company.
              if send_email (row_email company) (row_company_name company)
              then mark_email_as_sent (row_email company) (row_company_name company)
                     now ''sent'' L1
              else mark_email_as_sent (row_email company) (row_company_name company)
                     now ''failed'' L1)
       L unsent_emails"

definition send_emails_job ::
  "(string \<Rightarrow> string \<Rightarrow> bool) \<Rightarrow> string \<Rightarrow> ledger \<Rightarrow> ledger" where
  "send_emails_job send_email now L =
     (let unsent_emails = get_unsent_emails 30 L
      in if unsent_emails = [] then L else send_batch send_email now unsent_emails L)"

text \<open>
  The operations of the system that write the ledger. \<open>scrape_companies_job\<close> is a
  sequence of \<open>save_companies_to_csv\<close> calls, one per target city, and the scheduler runs
  the two jobs, so a run of the system is a list of these operations.
\<close>

datatype operation =
    Setup_csv_files
  | Save_companies_to_csv "string \<Rightarrow> string" "company list" string
  | Mark_email_as_sent string string string string
  | Send_emails_job "string \<Rightarrow> string \<Rightarrow> bool" string

fun apply_operation :: "ledger \<Rightarrow> operation \<Rightarrow> ledger" where
  "apply_operation L Setup_csv_files = setup_csv_files L"
| "apply_operation L (Save_companies_to_csv g companies c) =
     save_companies_to_csv g companies c L"
| "apply_operation L (Mark_email_as_sent a n d s) = mark_email_as_sent a n d s L"
| "apply_operation L (Send_emails_job send_email now) = send_emails_job send_email now L"

definition run :: "operation list \<Rightarrow> ledger \<Rightarrow> ledger" where
  "run ops L = foldl apply_operation L ops"

text \<open>An outcome has been recorded for an address: an outcome row holds it.\<close>

definition recorded :: "string \<Rightarrow> ledger \<Rightarrow> bool" where
  "recorded address L =
     (case read_csv (sent_emails_file L) of
        Some sent_df \<Rightarrow> address \<in> set (map sent_email sent_df)
      | None \<Rightarrow> False)"

text \<open>The outcome rows of an address, oldest first.\<close>

definition outcomes :: "string \<Rightarrow> ledger \<Rightarrow> sent_row list" where
  "outcomes address L =
     (case read_csv (sent_emails_file L) of
        Some sent_df \<Rightarrow> filter (\<lambda>r. sent_email r = address) sent_df
      | None \<Rightarrow> [])"

text \<open>The outcome row that the loop of \<open>send_emails_job\<close> records for a company.\<close>

definition outcome_row ::
  "(string \<Rightarrow> string \<Rightarrow> bool) \<Rightarrow> string \<Rightarrow> company_row \<Rightarrow> sent_row" where
  "outcome_row send_email now company =
     \<lparr>sent_email = row_email company, sent_company_name = row_company_name company,
      sent_date = now,
      sent_status = (if send_email (row_email company) (row_company_name company)
                then ''sent'' else ''failed'')\<rparr>"

text \<open>Example ledgers: five pending companies and no outcome; two empty tables.\<close>

definition pending_row :: "string \<Rightarrow> company_row" where
  "pending_row address =
     \<lparr>row_company_name = ''Tech Solutions'', row_email = address,
      row_source_url = ''https://techsolutions.com'', row_city = ''Riyadh'', row_country = ''SA''\<rparr>"

definition five_pending :: ledger where
  "five_pending =
     \<lparr>csv_file = Table (map pending_row
        [''a@x.com'', ''b@x.com'', ''c@x.com'', ''d@x.com'', ''e@x.com'']),
      sent_emails_file = Table []\<rparr>"

definition empty_ledger :: ledger where
  "empty_ledger = \<lparr>csv_file = Table [], sent_emails_file = Table []\<rparr>"

definition found :: "string \<Rightarrow> string \<Rightarrow> company" where
  "found n e = \<lparr>co_name = n, co_email = e, co_url = ''https://b.com''\<rparr>"


section \<open>Deduplication cache (\<open>visited_links_manager.py\<close>)\<close>

text \<open>
  A Python value as it occurs in an entry of the cache, in a caller's metadata or in a
  loaded JSON document. \<open>PTime t\<close> is a string that \<open>datetime.fromisoformat\<close> reads as
  the naive datetime \<open>t\<close>, counted in microseconds since \<open>datetime.min\<close>
  (\<open>0001-01-01T00:00:00\<close>); it is what \<open>datetime.now().isoformat()\<close> writes. \<open>PStr\<close> is
  a string that is never read as a timestamp, or that \<open>fromisoformat\<close> rejects.
  Floating-point numbers are not modelled.
\<close>

datatype pyval =
    PNone
  | PBool bool
  | PInt int
  | PStr string
  | PTime int
  | PList "pyval list"
  | PDict "(string, pyval) fmap"

text \<open>The exceptions that the modelled methods let through to their caller.\<close>

datatype error = TypeError | AttributeError

text \<open>
  A category store maps a key to its entry, a dictionary of fields
  (\<open>Dict[str, Dict]\<close> in the source).
\<close>

type_synonym entry = "(string, pyval) fmap"

type_synonym store = "(string, entry) fmap"

text \<open>The state of a \<open>VisitedLinksManager\<close>.\<close>

record manager =
  expire_days :: int
  visited_links :: store
  visited_companies :: store
  visited_searches :: store

text \<open>One day, \<open>timedelta(days=1)\<close>, in microseconds.\<close>

definition day_us :: int where
  "day_us = 86400000000"

text \<open>\<open>d.get(k, default)\<close>.\<close>

definition get :: "entry \<Rightarrow> string \<Rightarrow> pyval \<Rightarrow> pyval" where
  "get d k dflt = (case fmlookup d k of None \<Rightarrow> dflt | Some v \<Rightarrow> v)"

text \<open>
  \<open>datetime.fromisoformat\<close>: the datetime, or \<open>None\<close> where it raises (a string it cannot
  read, or a value that is no string). A string with a time zone is read as an aware
  datetime, whose comparison with the naive \<open>datetime.now()\<close> raises as well; it counts as
  unreadable here.
\<close>

definition fromisoformat :: "pyval \<Rightarrow> int option" where
  "fromisoformat v = (case v of PTime t \<Rightarrow> Some t | _ \<Rightarrow> None)"

text \<open>
  \<open>_is_expired\<close>, with the clock passed as \<open>now\<close>. Every exception of the \<open>try\<close> block
  gives \<open>True\<close>: the timestamp that cannot be read, and the \<open>OverflowError\<close> of
  \<open>datetime.now() - timedelta(days=self.expire_days)\<close> when the difference would lie
  before \<open>datetime.min\<close>.
\<close>

definition is_expired :: "int \<Rightarrow> int \<Rightarrow> pyval \<Rightarrow> bool" where
  "is_expired now days timestamp =
     (if days \<le> 0 then False
      else (case fromisoformat timestamp of
              None \<Rightarrow> True
            | Some visit_time \<Rightarrow>
                if now - days * day_us < 0 then True
                else visit_time < now - days * day_us))"

text \<open>
  \<open>is_link_visited\<close>: returns the answer and the manager, whose link store has lost the
  entry when it was found expired.
\<close>

definition is_link_visited :: "int \<Rightarrow> string \<Rightarrow> manager \<Rightarrow> bool \<times> manager" where
  "is_link_visited now url self =
     (let normalized_url = normalize_url url
      in if normalized_url = [] then (False, self)
         else (case fmlookup (visited_links self) normalized_url of
                 None \<Rightarrow> (False, self)
               | Some data \<Rightarrow>
                   if data = fmempty then (False, self)
                   else if is_expired now (expire_days self) (get data ''timestamp'' (PStr []))
                   then (False, self\<lparr>visited_links := fmdrop normalized_url (visited_links self)\<rparr>)
                   else (True, self)))"

text \<open>
  \<open>v + 1\<close> for the stored visit count: an integer (or a boolean, which Python adds as 0
  or 1) is incremented; for any other value the addition raises \<open>TypeError\<close>.
\<close>

definition add_one :: "pyval \<Rightarrow> pyval option" where
  "add_one v =
     (case v of
        PInt n \<Rightarrow> Some (PInt (n + 1))
      | PBool b \<Rightarrow> Some (PInt ((if b then 1 else 0) + 1))
      | _ \<Rightarrow> None)"

text \<open>
  \<open>if metadata: visit_data.update(metadata)\<close>: the fields of a non-empty metadata
  dictionary replace the fields of the same name.
\<close>

definition update :: "entry \<Rightarrow> entry option \<Rightarrow> entry" where
  "update visit_data metadata =
     (case metadata of
        None \<Rightarrow> visit_data
      | Some m \<Rightarrow> if m = fmempty then visit_data else visit_data ++\<^sub>f m)"

text \<open>
  \<open>mark_link_visited\<close>: nothing happens for an empty key; otherwise the entry is rebuilt
  from the clock, the scraper name and the stored visit count plus one, the metadata is
  merged over it, and the entry is stored under the key.
\<close>

definition mark_link_visited ::
  "int \<Rightarrow> string \<Rightarrow> string \<Rightarrow> entry option \<Rightarrow> manager \<Rightarrow> error + manager" where
  "mark_link_visited now url scraper_name metadata self =
     (let normalized_url = normalize_url url
      in if normalized_url = [] then Inr self
         else (case add_one
                      (get (case fmlookup (visited_links self) normalized_url of
                              None \<Rightarrow> fmempty
                            | Some data \<Rightarrow> data)
                         ''visit_count'' (PInt 0)) of
                 None \<Rightarrow> Inl TypeError
               | Some visit_count \<Rightarrow>
                   (let visit_data =
                          fmupd ''visit_count'' visit_count
                            (fmupd ''scraper'' (PStr scraper_name)
                               (fmupd ''timestamp'' (PTime now) fmempty))
                    in Inr (self\<lparr>visited_links :=
                               fmupd normalized_url (update visit_data metadata)
                                 (visited_links self)\<rparr>))))"



text \<open>The value of a field of the entry stored under a key, if there is one.\<close>

definition entry_field :: "store \<Rightarrow> string \<Rightarrow> string \<Rightarrow> pyval option" where
  "entry_field st k field = (case fmlookup st k of None \<Rightarrow> None | Some e \<Rightarrow> fmlookup e field)"

text \<open>
  The metadata of a call leaves the two maintained fields alone: it is absent, or holds
  neither \<open>visit_count\<close> nor \<open>timestamp\<close>.
\<close>

definition maintained_free :: "entry option \<Rightarrow> bool" where
  "maintained_free metadata =
     (case metadata of
        None \<Rightarrow> True
      | Some m \<Rightarrow>
          if ''visit_count'' |\<in>| fmdom m then False
          else if ''timestamp'' |\<in>| fmdom m then False
          else True)"

text \<open>
  The visit count stored for a key when it is an integer; an absent key or field counts
  as 0, as in \<open>self.visited_links.get(key, {}).get('visit_count', 0)\<close>.
\<close>

definition current_count :: "store \<Rightarrow> string \<Rightarrow> int option" where
  "current_count st k =
     (case fmlookup st k of
        None \<Rightarrow> Some 0
      | Some e \<Rightarrow>
          (case fmlookup e ''visit_count'' of
             None \<Rightarrow> Some 0
           | Some (PInt n) \<Rightarrow> Some n
           | Some _ \<Rightarrow> None))"

text \<open>
  An entry is stale: the retention is positive and the entry's timestamp is missing,
  unreadable, or older than the retention window.
\<close>

definition stale :: "int \<Rightarrow> int \<Rightarrow> entry \<Rightarrow> bool" where
  "stale now days e =
     (if days \<le> 0 then False
      else (case fmlookup e ''timestamp'' of
              Some (PTime t) \<Rightarrow> t < now - days * day_us
            | _ \<Rightarrow> True))"

text \<open>
  The expiry condition as the specification words it: the age of the entry exceeds the
  retention window, and a retention of 0 never expires. An entry without a readable
  timestamp has no age.
\<close>

definition age_exceeds_retention :: "int \<Rightarrow> int \<Rightarrow> entry \<Rightarrow> bool" where
  "age_exceeds_retention now days e =
     (if days = 0 then False
      else (case fmlookup e ''timestamp'' of
              Some (PTime t) \<Rightarrow> days * day_us < now - t
            | _ \<Rightarrow> False))"

text \<open>Example managers: nothing visited; one link marked once at time \<open>t\<close>.\<close>

definition empty_manager :: "int \<Rightarrow> manager" where
  "empty_manager days =
     \<lparr>expire_days = days, visited_links = fmempty, visited_companies = fmempty,
      visited_searches = fmempty\<rparr>"

definition marked_once :: "int \<Rightarrow> int \<Rightarrow> manager" where
  "marked_once days t =
     \<lparr>expire_days = days,
      visited_links =
        fmupd ''http://example.com/path''
          (fmupd ''visit_count'' (PInt 1)
             (fmupd ''scraper'' (PStr ''unknown'')
                (fmupd ''timestamp'' (PTime t) fmempty)))
          fmempty,
      visited_companies = fmempty, visited_searches = fmempty\<rparr>"

text \<open>
  A snapshot file as \<open>_load_visited_links\<close> meets it: absent; present but \<open>open\<close> or the
  read raises; readable but rejected by \<open>json.load\<close>; or a JSON document.
  \<open>_load_visited_links\<close> returns the value under \<open>visited_links\<close> of a JSON object, and
  the empty dictionary in every other case (for a document that is no object, \<open>data.get\<close>
  raises \<open>AttributeError\<close>, which the \<open>except\<close> clause catches).
\<close>

datatype snapshot_file = No_file | Unreadable_file | Not_json | Json pyval

definition load_visited_links :: "snapshot_file \<Rightarrow> pyval" where
  "load_visited_links f =
     (case f of
        No_file \<Rightarrow> PDict fmempty
      | Unreadable_file \<Rightarrow> PDict fmempty
      | Not_json \<Rightarrow> PDict fmempty
      | Json data \<Rightarrow>
          (case data of
             PDict d \<Rightarrow>
               (case fmlookup d ''visited_links'' of
                  None \<Rightarrow> PDict fmempty
                | Some v \<Rightarrow> v)
           | _ \<Rightarrow> PDict fmempty))"

text \<open>
  The link part of \<open>_cleanup_expired_entries\<close>, which \<open>__init__\<close> runs on the loaded
  value outside any \<open>try\<close>: nothing for a retention of 0 or less; otherwise the entries are
  read with \<open>.items()\<close> and \<open>data.get('timestamp', '')\<close>, which raise \<open>AttributeError\<close>
  for a store or an entry that is no dictionary, and the expired ones are deleted.
\<close>

definition is_dict :: "pyval \<Rightarrow> bool" where
  "is_dict v = (case v of PDict e \<Rightarrow> True | _ \<Rightarrow> False)"

definition cleanup_expired_links :: "int \<Rightarrow> int \<Rightarrow> pyval \<Rightarrow> error + pyval" where
  "cleanup_expired_links now days st =
     (if days \<le> 0 then Inr st
      else (case st of
              PDict m \<Rightarrow>
                if fmpred (\<lambda>k data. is_dict data) m
                then Inr (PDict (fmfilter
                       (\<lambda>k. case fmlookup m k of
                               Some (PDict data) \<Rightarrow>
                                 \<not> is_expired now days (get data ''timestamp'' (PStr []))
                             | _ \<Rightarrow> False) m))
                else Inl AttributeError
            | _ \<Rightarrow> Inl AttributeError))"


section \<open>Properties of the key normalizer\<close>

lemma split_nonempty: "split sep s \<noteq> []"
  by (induction s) (auto split: list.splits)

lemma hd_split: "hd (split sep s) = takeWhile (\<lambda>c. c \<noteq> sep) s"
  by (induction s) (auto split: list.splits simp: split_nonempty)

lemma takeWhile_absent: "sep \<notin> set s \<Longrightarrow> takeWhile (\<lambda>c. c \<noteq> sep) s = s"
  by (induction s) auto

lemma lower_Nil: "lower [] = []"
  by (simp add: lower_def)

lemma strip_Nil: "strip [] = []"
  by (simp add: strip_def)

lemma rstrip_chars_Nil: "rstrip_chars chars [] = []"
  by (simp add: rstrip_chars_def)

lemma normalize_url_eq:
  "normalize_url url =
     takeWhile (\<lambda>c. c \<noteq> CHR ''?'') (rstrip_chars ''/'' (strip (lower url)))"
proof (cases "url = []")
  case True
  then show ?thesis
    by (simp add: normalize_url_def lower_Nil strip_Nil rstrip_chars_Nil)
next
  case False
  then show ?thesis
    by (simp add: normalize_url_def Let_def hd_split takeWhile_absent)
qed

lemma lower_example: "lower ''HTTP://Example.com/path/'' = ''http://example.com/path/''"
  by (simp add: lower_def lower_char_def latin1_upper_def latin1_lower_def)

lemma lower_example': "lower ''http://example.com/path'' = ''http://example.com/path''"
  by (simp add: lower_def lower_char_def latin1_upper_def latin1_lower_def)

lemma normalize_example_upper:
  "normalize_url ''HTTP://Example.com/path/'' = ''http://example.com/path''"
  by (simp add: normalize_url_eq lower_example strip_def isspace_def rstrip_chars_def)

lemma normalize_example_lower:
  "normalize_url ''http://example.com/path'' = ''http://example.com/path''"
  by (simp add: normalize_url_eq lower_example' strip_def isspace_def rstrip_chars_def)

text \<open>
  Outside ASCII: an upper-case letter of the Latin-1 range is lower-cased, and a no-break
  space is whitespace, so a URL that consists of one gives the empty key.
\<close>

lemma lower_latin1: "lower [CHR 0xC9] = [CHR 0xE9]"
  by (simp add: lower_def lower_char_def latin1_upper_def latin1_lower_def)

lemma normalize_url_no_break_space:
  "normalize_url (''http://a.com'' @ [CHR 0xA0]) = ''http://a.com''"
  "normalize_url [CHR 0xA0] = []"
  by (simp_all add: normalize_url_eq lower_def lower_char_def latin1_upper_def
      latin1_lower_def strip_def isspace_def rstrip_chars_def)

text \<open>
  C6 (as stated, refuted). The specification says a single trailing path separator is
  stripped. On \<open>http://a.com//\<close> the code removes both slashes, while the normalizer of the
  specification's words keeps one.
\<close>

theorem C6_single_separator_counterexample:
  "normalize_url ''http://a.com//'' = ''http://a.com'' \<and>
   normalizeLink_spec ''http://a.com//'' = ''http://a.com/'' \<and>
   normalize_url ''http://a.com//'' \<noteq> normalizeLink_spec ''http://a.com//''"
  by (simp add: normalize_url_eq normalizeLink_spec_def strip_one_separator_def
      lower_def lower_char_def latin1_upper_def latin1_lower_def strip_def isspace_def
      rstrip_chars_def)

text \<open>The key holds no upper-case letter: every character of it comes out of \<open>lower\<close>.\<close>

lemma latin1_disjoint: "set latin1_lower \<inter> set latin1_upper = {}"
  by (simp add: latin1_lower_def latin1_upper_def)

lemma latin1_length: "length latin1_upper = length latin1_lower"
  by (simp add: latin1_lower_def latin1_upper_def)

lemma lower_char_not_upper: "lower_char c \<notin> set latin1_upper"
proof (cases "map_of (zip latin1_upper latin1_lower) c")
  case None
  then have "c \<notin> set (map fst (zip latin1_upper latin1_lower))"
    by (simp add: map_of_eq_None_iff)
  then have "c \<notin> set latin1_upper"
    by (simp add: latin1_length)
  with None show ?thesis
    by (simp add: lower_char_def)
next
  case (Some d)
  then have "d \<in> set latin1_lower"
    by (auto dest: map_of_SomeD set_zip_rightD)
  with latin1_disjoint have "d \<notin> set latin1_upper"
    by blast
  with Some show ?thesis
    by (simp add: lower_char_def)
qed

lemma set_normalize_url: "set (normalize_url raw) \<subseteq> set (lower raw)"
proof -
  have "set (normalize_url raw) \<subseteq> set (rstrip_chars ''/'' (strip (lower raw)))"
    unfolding normalize_url_eq by (auto dest: set_takeWhileD)
  also have "\<dots> \<subseteq> set (strip (lower raw))"
    unfolding rstrip_chars_def by (auto dest: set_dropWhileD)
  also have "\<dots> \<subseteq> set (lower raw)"
    unfolding strip_def by (auto dest!: set_dropWhileD)
  finally show ?thesis .
qed

lemma normalize_url_lower_case: "set (normalize_url raw) \<inter> set latin1_upper = {}"
proof -
  have "set (lower raw) \<inter> set latin1_upper = {}"
    using lower_char_not_upper by (auto simp: lower_def)
  with set_normalize_url [of raw] show ?thesis
    by blast
qed

text \<open>
  C6 (amended). For every raw URL (a string of code points below 256), the key is obtained
  by lower-casing, trimming the surrounding whitespace, stripping every trailing slash, and
  then dropping everything from the first question mark onward; the key holds no question
  mark and no upper-case letter; a trailing no-break space is trimmed like any whitespace;
  and the two URLs of the specification's example get the same key.
\<close>

theorem C6_normalize_url:
  "normalize_url raw =
     takeWhile (\<lambda>c. c \<noteq> CHR ''?'') (rstrip_chars ''/'' (strip (lower raw))) \<and>
   CHR ''?'' \<notin> set (normalize_url raw) \<and>
   set (normalize_url raw) \<inter> set latin1_upper = {} \<and>
   normalize_url (''http://a.com'' @ [CHR 0xA0]) = ''http://a.com'' \<and>
   normalize_url ''HTTP://Example.com/path/'' = normalize_url ''http://example.com/path''"
proof -
  have cut: "CHR ''?'' \<notin> set (takeWhile (\<lambda>c. c \<noteq> CHR ''?'') s)" for s
    by (induction s) auto
  have key: "normalize_url raw =
      takeWhile (\<lambda>c. c \<noteq> CHR ''?'') (rstrip_chars ''/'' (strip (lower raw)))"
    by (rule normalize_url_eq)
  have "CHR ''?'' \<notin> set (normalize_url raw)"
    unfolding key by (rule cut)
  moreover have "normalize_url ''HTTP://Example.com/path/'' =
      normalize_url ''http://example.com/path''"
    by (simp only: normalize_example_upper normalize_example_lower)
  moreover note normalize_url_lower_case [of raw] normalize_url_no_break_space(1)
  ultimately show ?thesis
    using key by blast
qed


section \<open>Properties of the contact validators\<close>

lemma validate_email_rejects_suffix: "\<not> validate_email ''support@foodics.comp''"
  by code_simp

lemma validate_email_rejects_role: "\<not> validate_email ''noreply@company.com''"
  by code_simp

lemma validate_email_rejects_role_upper: "\<not> validate_email ''NoReply@Company.com''"
  by code_simp

lemma validate_email_accepts: "validate_email ''info@company.sa''"
  by code_simp

lemma role_rule_applies: "contains (lower ''NoReply@Company.com'') ''noreply''"
  by code_simp

lemma suffix_rule_applies: "contains (lower ''support@foodics.comp'') ''.comp''"
  by code_simp

lemma is_valid_email_rejects_suffix: "\<not> is_valid_email ''support@foodics.comp''"
  by code_simp

lemma is_valid_email_accepts: "is_valid_email ''info@company.sa''"
  by code_simp

text \<open>
  The validator of \<open>clean_emails.py\<close> has no role-account rule: it accepts the address
  that \<open>validate_email\<close> rejects.
\<close>

lemma is_valid_email_has_no_role_rule: "is_valid_email ''noreply@company.com''"
  by code_simp

text \<open>
  C7. The contact validator \<open>validate_email\<close> rejects \<open>support@foodics.comp\<close> (the
  corrupted-suffix entry \<open>.comp\<close> of its denylist occurs in it) and
  \<open>noreply@company.com\<close> (the role-account entry \<open>noreply\<close> occurs in it, also when the
  address is written in upper case), and accepts \<open>info@company.sa\<close>; the validator of
  \<open>clean_emails.py\<close> agrees on the first and the last address.
\<close>

theorem C7_validator:
  "\<not> validate_email ''support@foodics.comp'' \<and>
   contains (lower ''support@foodics.comp'') ''.comp'' \<and>
   \<not> validate_email ''noreply@company.com'' \<and>
   \<not> validate_email ''NoReply@Company.com'' \<and>
   contains (lower ''NoReply@Company.com'') ''noreply'' \<and>
   validate_email ''info@company.sa'' \<and>
   \<not> is_valid_email ''support@foodics.comp'' \<and>
   is_valid_email ''info@company.sa''"
  by (simp only: validate_email_rejects_suffix validate_email_rejects_role
      validate_email_rejects_role_upper validate_email_accepts role_rule_applies
      suffix_rule_applies is_valid_email_rejects_suffix is_valid_email_accepts
      simp_thms)


section \<open>Properties of the outreach ledger\<close>

lemma read_csv_simps [simp]:
  "read_csv (Table rows) = Some rows"
  "read_csv (Read_only rows) = Some rows"
  "read_csv Missing = None"
  "read_csv Unreadable = None"
  by (simp_all add: read_csv_def)

lemma get_unsent_emails_read:
  "read_csv (csv_file L) = Some cs \<Longrightarrow> read_csv (sent_emails_file L) = Some ss \<Longrightarrow>
   get_unsent_emails limit L =
     head limit (filter (\<lambda>r. row_email r \<notin> set (map sent_email ss)) cs)"
  by (simp add: get_unsent_emails_def)

lemma mark_email_as_sent_Table:
  "sent_emails_file L = Table ss \<Longrightarrow>
   mark_email_as_sent a n d s L =
     L\<lparr>sent_emails_file := Table (ss @ [\<lparr>sent_email = a, sent_company_name = n,
                                           sent_date = d, sent_status = s\<rparr>])\<rparr>"
  by (simp add: mark_email_as_sent_def read_csv_def to_csv_def)

lemma get_unsent_emails_Table:
  "csv_file L = Table cs \<Longrightarrow> sent_emails_file L = Table ss \<Longrightarrow>
   get_unsent_emails limit L =
     head limit (filter (\<lambda>r. row_email r \<notin> set (map sent_email ss)) cs)"
  by (simp add: get_unsent_emails_def read_csv_def)

lemma recorded_mark: "recorded a L \<Longrightarrow> recorded a (mark_email_as_sent b n d s L)"
  by (cases "sent_emails_file L")
    (auto simp: recorded_def mark_email_as_sent_def to_csv_def)

lemma recorded_setup: "recorded a L \<Longrightarrow> recorded a (setup_csv_files L)"
  by (cases "sent_emails_file L"; cases "csv_file L")
    (auto simp: recorded_def setup_csv_files_def Let_def)

lemma recorded_save: "recorded a L \<Longrightarrow> recorded a (save_companies_to_csv g cs c L)"
  by (cases "csv_file L")
    (auto simp: recorded_def save_companies_to_csv_def to_csv_def Let_def)

lemma recorded_send_batch: "recorded a L \<Longrightarrow> recorded a (send_batch f now rs L)"
  unfolding send_batch_def
  by (induction rs arbitrary: L) (auto simp: recorded_mark)

lemma recorded_send_job: "recorded a L \<Longrightarrow> recorded a (send_emails_job f now L)"
  by (simp add: send_emails_job_def Let_def recorded_send_batch)

lemma recorded_apply: "recorded a L \<Longrightarrow> recorded a (apply_operation L op)"
  by (cases op) (simp_all add: recorded_mark recorded_setup recorded_save recorded_send_job)

lemma recorded_run: "recorded a L \<Longrightarrow> recorded a (run ops L)"
  unfolding run_def
  by (induction ops arbitrary: L) (auto simp: recorded_apply)

lemma set_head: "set (head n xs) \<subseteq> set xs"
  by (auto simp: head_def dest: in_set_takeD)

lemma recorded_not_unsent:
  assumes "recorded a L"
  shows "a \<notin> set (map row_email (get_unsent_emails limit L))"
proof -
  from assms obtain ss where ss: "read_csv (sent_emails_file L) = Some ss"
      "a \<in> set (map sent_email ss)"
    by (auto simp: recorded_def split: option.splits)
  show ?thesis
  proof (cases "read_csv (csv_file L)")
    case (Some cs)
    have "set (get_unsent_emails limit L) \<subseteq>
        set (filter (\<lambda>r. row_email r \<notin> set (map sent_email ss)) cs)"
      unfolding get_unsent_emails_read [OF Some ss(1)] by (rule set_head)
    then have *: "\<forall>r \<in> set (get_unsent_emails limit L). row_email r \<notin> set (map sent_email ss)"
      by auto
    show ?thesis
    proof
      assume "a \<in> set (map row_email (get_unsent_emails limit L))"
      then obtain r where "r \<in> set (get_unsent_emails limit L)" "row_email r = a"
        by auto
      with * ss(2) show False by blast
    qed
  qed (simp add: get_unsent_emails_def)
qed

lemma send_batch_Table:
  "sent_emails_file L = Table ss \<Longrightarrow>
   send_batch f now rs L = L\<lparr>sent_emails_file := Table (ss @ map (outcome_row f now) rs)\<rparr>"
proof (induction rs arbitrary: L ss)
  case Nil
  then show ?case by (simp add: send_batch_def)
next
  case (Cons r rs)
  let ?L1 = "L\<lparr>sent_emails_file := Table (ss @ [outcome_row f now r])\<rparr>"
  have step: "send_batch f now (r # rs) L = send_batch f now rs ?L1"
    using Cons.prems by (simp add: send_batch_def mark_email_as_sent_Table outcome_row_def)
  have "send_batch f now rs ?L1 =
      ?L1\<lparr>sent_emails_file := Table ((ss @ [outcome_row f now r]) @ map (outcome_row f now) rs)\<rparr>"
    by (rule Cons.IH) simp
  with step show ?case by simp
qed

lemma filter_taken_distinct:
  assumes "distinct (map f xs)"
  shows "filter (\<lambda>x. f x \<notin> set (map f (take n xs))) xs = drop n xs"
proof -
  let ?P = "\<lambda>x. f x \<notin> set (map f (take n xs))"
  have "distinct (map f (take n xs) @ map f (drop n xs))"
    using assms by (simp flip: map_append)
  then have disj: "set (map f (take n xs)) \<inter> set (map f (drop n xs)) = {}"
    by simp
  have "filter ?P xs = filter ?P (take n xs) @ filter ?P (drop n xs)"
    by (metis append_take_drop_id filter_append)
  moreover have "filter ?P (take n xs) = []"
    by (auto simp: filter_empty_conv)
  moreover have "filter ?P (drop n xs) = drop n xs"
    using disj by (auto simp: filter_id_conv)
  ultimately show ?thesis by simp
qed

lemma outcome_row_email: "sent_email (outcome_row f now r) = row_email r"
  by (simp add: outcome_row_def)

lemma unsent_not_recorded:
  assumes "sent_emails_file L = Table ss" and "r \<in> set (get_unsent_emails limit L)"
  shows "row_email r \<notin> set (map sent_email ss)"
proof
  assume "row_email r \<in> set (map sent_email ss)"
  then have "recorded (row_email r) L"
    using assms(1) by (simp add: recorded_def)
  then have "row_email r \<notin> set (map row_email (get_unsent_emails limit L))"
    by (rule recorded_not_unsent)
  with assms(2) show False by simp
qed

lemma outcomes_mark:
  "sent_emails_file L = Table ss \<Longrightarrow>
   outcomes a (mark_email_as_sent a n d st L) =
     outcomes a L @ [\<lparr>sent_email = a, sent_company_name = n, sent_date = d, sent_status = st\<rparr>]"
  by (simp add: outcomes_def mark_email_as_sent_Table)

text \<open>
  C1 (as stated, refuted). On a ledger with five pending records, two sequential
  \<open>get_unsent_emails(3)\<close> calls return the same three records: the call only reads the files,
  nothing is moved to an in-flight state, and the second call does not return the remaining
  two.
\<close>

theorem C1_claim_counterexample:
  "(let first = get_unsent_emails 3 five_pending;
        second = get_unsent_emails 3 five_pending
    in first = map pending_row [''a@x.com'', ''b@x.com'', ''c@x.com''] \<and>
       second = first \<and>
       second \<noteq> map pending_row [''d@x.com'', ''e@x.com''])"
  by (simp add: get_unsent_emails_def read_csv_def five_pending_def head_def pending_row_def)

text \<open>
  C1 (amended). For a limit of 0 or more and files that can be read,
  \<open>get_unsent_emails(limit)\<close> returns the first \<open>limit\<close> pending records, the company rows
  whose address has no outcome row, in file order. When the outcome file can also be written
  back and an outcome is recorded for every record of that batch, as the loop of
  \<open>send_emails_job\<close> does, the next \<open>get_unsent_emails(limit)\<close> returns the first
  \<open>limit\<close> of the pending records whose address is not in the first batch, so no address
  is in both batches; when the pending records have distinct addresses, these are the
  following \<open>limit\<close> pending records. The witness is the ledger with five pending records
  and limit 3: the first batch is the first three, the second the remaining two.
\<close>

theorem C1_batches:
  assumes "read_csv (csv_file L) = Some cs" and "read_csv (sent_emails_file L) = Some ss"
    and "pending = filter (\<lambda>r. row_email r \<notin> set (map sent_email ss)) cs"
    and "0 \<le> limit"
  shows "get_unsent_emails limit L = take (nat limit) pending \<and>
         (sent_emails_file L = Table ss \<longrightarrow>
            get_unsent_emails limit
              (send_batch send_email now (get_unsent_emails limit L) L) =
              take (nat limit)
                (filter (\<lambda>r. row_email r \<notin> set (map row_email (take (nat limit) pending)))
                   pending) \<and>
            set (map row_email (get_unsent_emails limit L)) \<inter>
            set (map row_email
              (get_unsent_emails limit
                 (send_batch send_email now (get_unsent_emails limit L) L))) = {} \<and>
            (distinct (map row_email pending) \<longrightarrow>
               get_unsent_emails limit
                 (send_batch send_email now (get_unsent_emails limit L) L) =
                 take (nat limit) (drop (nat limit) pending)))"
proof -
  let ?n = "nat limit"
  let ?first = "take ?n pending"
  let ?rest = "filter (\<lambda>r. row_email r \<notin> set (map row_email ?first)) pending"
  let ?L' = "send_batch send_email now ?first L"
  have first: "get_unsent_emails limit L = ?first"
    using assms by (simp add: get_unsent_emails_read head_def)
  have later: "get_unsent_emails limit ?L' = take ?n ?rest \<and>
      set (map row_email ?first) \<inter> set (map row_email (get_unsent_emails limit ?L')) = {} \<and>
      (distinct (map row_email pending) \<longrightarrow>
         get_unsent_emails limit ?L' = take ?n (drop ?n pending))"
    if writable: "sent_emails_file L = Table ss"
  proof -
    have L': "?L' =
        L\<lparr>sent_emails_file := Table (ss @ map (outcome_row send_email now) ?first)\<rparr>"
      using writable by (rule send_batch_Table)
    have "get_unsent_emails limit ?L' =
        take ?n (filter (\<lambda>r. row_email r \<notin>
          set (map sent_email (ss @ map (outcome_row send_email now) ?first))) cs)"
      using assms(1,4) by (simp add: L' get_unsent_emails_def head_def)
    also have "filter (\<lambda>r. row_email r \<notin>
          set (map sent_email (ss @ map (outcome_row send_email now) ?first))) cs = ?rest"
      unfolding assms(3) filter_filter
      by (rule filter_cong) (auto simp: outcome_row_email image_iff)
    finally have second: "get_unsent_emails limit ?L' = take ?n ?rest" .
    have "set (map row_email (take ?n ?rest)) \<subseteq> set (map row_email ?rest)"
      by (auto dest: in_set_takeD)
    moreover have "set (map row_email ?first) \<inter> set (map row_email ?rest) = {}"
      by (auto simp: image_iff)
    ultimately have disjoint:
      "set (map row_email ?first) \<inter> set (map row_email (take ?n ?rest)) = {}"
      by blast
    have "?rest = drop ?n pending" if "distinct (map row_email pending)"
      using that by (rule filter_taken_distinct)
    with second disjoint show ?thesis
      by simp
  qed
  from later show ?thesis
    unfolding first by blast
qed

theorem C1_batches_witness:
  "get_unsent_emails 3 five_pending =
     [pending_row ''a@x.com'', pending_row ''b@x.com'', pending_row ''c@x.com''] \<and>
   get_unsent_emails 3
     (send_batch (\<lambda>a n. True) ''2024-05-01 14:00:00'' (get_unsent_emails 3 five_pending)
        five_pending) = [pending_row ''d@x.com'', pending_row ''e@x.com'']"
proof -
  let ?rows = "map pending_row [''a@x.com'', ''b@x.com'', ''c@x.com'', ''d@x.com'', ''e@x.com'']"
  have h1: "read_csv (csv_file five_pending) = Some ?rows"
    by (simp add: five_pending_def)
  have h2: "read_csv (sent_emails_file five_pending) = Some []"
    by (simp add: five_pending_def)
  have h3: "?rows = filter (\<lambda>r. row_email r \<notin> set (map sent_email [])) ?rows"
    by simp
  have h4: "(0::int) \<le> 3"
    by simp
  have w: "sent_emails_file five_pending = Table []"
    by (simp add: five_pending_def)
  have d: "distinct (map row_email ?rows)"
    by (simp add: pending_row_def)
  note batches = C1_batches [OF h1 h2 h3 h4, of "\<lambda>a n. True" "''2024-05-01 14:00:00''"]
  have t1: "take (nat 3) ?rows =
      [pending_row ''a@x.com'', pending_row ''b@x.com'', pending_row ''c@x.com'']"
    by simp
  have t2: "take (nat 3) (drop (nat 3) ?rows) =
      [pending_row ''d@x.com'', pending_row ''e@x.com'']"
    by simp
  have first: "get_unsent_emails 3 five_pending = take (nat 3) ?rows"
    by (rule batches [THEN conjunct1])
  have second: "get_unsent_emails 3
     (send_batch (\<lambda>a n. True) ''2024-05-01 14:00:00'' (get_unsent_emails 3 five_pending)
        five_pending) = take (nat 3) (drop (nat 3) ?rows)"
    by (rule batches [THEN conjunct2, THEN mp, OF w, THEN conjunct2, THEN conjunct2,
        THEN mp, OF d])
  from first second show ?thesis
    unfolding t1 t2 by (rule conjI)
qed

text \<open>
  C2 (as stated, refuted). After one pending record has been fetched and its outcome
  recorded, recording an outcome for the same address again is accepted: the outcome table
  gets a second row for the address and the ledger changes.
\<close>

theorem C2_double_report_counterexample:
  "(let L1 = mark_email_as_sent ''a@x.com'' ''Tech Solutions'' ''2024-05-01 14:00:00'' ''sent''
               five_pending;
        L2 = mark_email_as_sent ''a@x.com'' ''Tech Solutions'' ''2024-05-01 14:00:10'' ''sent'' L1
    in get_unsent_emails 1 five_pending = [pending_row ''a@x.com''] \<and>
       outcomes ''a@x.com'' L1 =
         [\<lparr>sent_email = ''a@x.com'', sent_company_name = ''Tech Solutions'',
           sent_date = ''2024-05-01 14:00:00'', sent_status = ''sent''\<rparr>] \<and>
       outcomes ''a@x.com'' L2 =
         [\<lparr>sent_email = ''a@x.com'', sent_company_name = ''Tech Solutions'',
           sent_date = ''2024-05-01 14:00:00'', sent_status = ''sent''\<rparr>,
          \<lparr>sent_email = ''a@x.com'', sent_company_name = ''Tech Solutions'',
           sent_date = ''2024-05-01 14:00:10'', sent_status = ''sent''\<rparr>] \<and>
       L2 \<noteq> L1)"
  by (simp add: Let_def mark_email_as_sent_def read_csv_def to_csv_def five_pending_def outcomes_def
      get_unsent_emails_def head_def pending_row_def)

text \<open>
  An outcome file that can be read but not written back: the exception of the write is
  swallowed and nothing is recorded.
\<close>

lemma mark_email_as_sent_read_only:
  "sent_emails_file L = Read_only ss \<Longrightarrow> mark_email_as_sent a n d s L = L"
  by (simp add: mark_email_as_sent_def to_csv_def)

text \<open>
  C2 (amended). \<open>mark_email_as_sent\<close> checks no state and reports no error: whenever the
  outcome file can be read and written back, it appends one row for the address it is given,
  whatever the ledger holds, and a second report for the same address appends a second row.
  When \<open>get_unsent_emails(1)\<close> returns a record and its outcome is recorded once with
  status \<open>sent\<close>, the file holds exactly one outcome row for that address, with status
  \<open>sent\<close>.
\<close>

theorem C2_report_outcome:
  assumes "sent_emails_file L = Table ss"
  shows "mark_email_as_sent b n d st L =
           L\<lparr>sent_emails_file :=
               Table (ss @ [\<lparr>sent_email = b, sent_company_name = n,
                              sent_date = d, sent_status = st\<rparr>])\<rparr> \<and>
         outcomes b (mark_email_as_sent b n' d' st' (mark_email_as_sent b n d st L)) =
           outcomes b L @
           [\<lparr>sent_email = b, sent_company_name = n, sent_date = d, sent_status = st\<rparr>,
            \<lparr>sent_email = b, sent_company_name = n', sent_date = d', sent_status = st'\<rparr>] \<and>
         (get_unsent_emails 1 L = [r] \<longrightarrow>
            outcomes (row_email r)
              (mark_email_as_sent (row_email r) (row_company_name r) d ''sent'' L) =
              [\<lparr>sent_email = row_email r, sent_company_name = row_company_name r,
                sent_date = d, sent_status = ''sent''\<rparr>])"
proof -
  let ?row = "\<lparr>sent_email = b, sent_company_name = n, sent_date = d, sent_status = st\<rparr>"
  let ?L1 = "mark_email_as_sent b n d st L"
  have one: "?L1 = L\<lparr>sent_emails_file := Table (ss @ [?row])\<rparr>"
    using assms by (rule mark_email_as_sent_Table)
  then have "sent_emails_file ?L1 = Table (ss @ [?row])"
    by simp
  then have "outcomes b (mark_email_as_sent b n' d' st' ?L1) =
      outcomes b ?L1 @
      [\<lparr>sent_email = b, sent_company_name = n', sent_date = d', sent_status = st'\<rparr>]"
    by (rule outcomes_mark)
  moreover have "outcomes b ?L1 = outcomes b L @ [?row]"
    using assms by (rule outcomes_mark)
  ultimately have two: "outcomes b (mark_email_as_sent b n' d' st' ?L1) =
      outcomes b L @
      [?row, \<lparr>sent_email = b, sent_company_name = n', sent_date = d', sent_status = st'\<rparr>]"
    by simp
  have three: "outcomes (row_email r)
        (mark_email_as_sent (row_email r) (row_company_name r) d ''sent'' L) =
      [\<lparr>sent_email = row_email r, sent_company_name = row_company_name r,
        sent_date = d, sent_status = ''sent''\<rparr>]"
    if fetched: "get_unsent_emails 1 L = [r]"
  proof -
    have "r \<in> set (get_unsent_emails 1 L)"
      using fetched by simp
    with assms have "row_email r \<notin> set (map sent_email ss)"
      by (rule unsent_not_recorded)
    then have "outcomes (row_email r) L = []"
      using assms by (auto simp: outcomes_def filter_empty_conv image_iff)
    with outcomes_mark [OF assms] show ?thesis
      by simp
  qed
  from one two three show ?thesis
    by simp
qed

theorem C2_report_outcome_witness:
  "sent_emails_file five_pending = Table [] \<and>
   get_unsent_emails 1 five_pending = [pending_row ''a@x.com''] \<and>
   outcomes ''a@x.com''
     (mark_email_as_sent ''a@x.com'' ''Tech Solutions'' ''2024-05-01 14:00:00'' ''sent''
        five_pending) =
     [\<lparr>sent_email = ''a@x.com'', sent_company_name = ''Tech Solutions'',
       sent_date = ''2024-05-01 14:00:00'', sent_status = ''sent''\<rparr>]"
proof -
  have h1: "sent_emails_file five_pending = Table []"
    by (simp add: five_pending_def)
  have h2: "get_unsent_emails 1 five_pending = [pending_row ''a@x.com'']"
    by (simp add: get_unsent_emails_def five_pending_def head_def pending_row_def)
  have "outcomes (row_email (pending_row ''a@x.com''))
     (mark_email_as_sent (row_email (pending_row ''a@x.com''))
        (row_company_name (pending_row ''a@x.com'')) ''2024-05-01 14:00:00'' ''sent''
        five_pending) =
     [\<lparr>sent_email = row_email (pending_row ''a@x.com''),
       sent_company_name = row_company_name (pending_row ''a@x.com''),
       sent_date = ''2024-05-01 14:00:00'', sent_status = ''sent''\<rparr>]"
    by (rule C2_report_outcome [OF h1, THEN conjunct2, THEN conjunct2, THEN mp, OF h2])
  then have "outcomes ''a@x.com''
     (mark_email_as_sent ''a@x.com'' ''Tech Solutions'' ''2024-05-01 14:00:00'' ''sent''
        five_pending) =
     [\<lparr>sent_email = ''a@x.com'', sent_company_name = ''Tech Solutions'',
       sent_date = ''2024-05-01 14:00:00'', sent_status = ''sent''\<rparr>]"
    by (simp add: pending_row_def)
  with h1 h2 show ?thesis
    by (intro conjI)
qed

text \<open>
  Across calls the check works: a batch whose addresses are all in the table changes
  nothing.
\<close>

lemma save_companies_known:
  assumes "csv_file L = Table df"
    and "list_all (\<lambda>c. co_email c \<in> set (map row_email df)) companies"
  shows "save_companies_to_csv g companies c L = L"
proof -
  have "filter (\<lambda>c. co_email c \<notin> set (map row_email df)) companies = []"
    using assms(2) by (auto simp: filter_empty_conv list_all_iff)
  then show ?thesis
    using assms(1) by (simp add: save_companies_to_csv_def read_csv_def to_csv_def)
qed

text \<open>
  C3 (the code misses a case). \<open>save_companies_to_csv\<close> compares each company with the
  table as it was read before the loop, so an address that occurs twice in one batch is
  stored twice: on the empty ledger, a batch of two companies with the address
  \<open>a@b.com\<close> leaves two rows for it, and both are pending.
\<close>

theorem C3_duplicate_within_batch:
  "csv_file (save_companies_to_csv (\<lambda>c. ''SA'')
       [found ''B Corp'' ''a@b.com'', found ''B Corp Ltd'' ''a@b.com''] ''Riyadh'' empty_ledger) =
     Table [\<lparr>row_company_name = ''B Corp'', row_email = ''a@b.com'',
              row_source_url = ''https://b.com'', row_city = ''Riyadh'', row_country = ''SA''\<rparr>,
            \<lparr>row_company_name = ''B Corp Ltd'', row_email = ''a@b.com'',
              row_source_url = ''https://b.com'', row_city = ''Riyadh'', row_country = ''SA''\<rparr>] \<and>
   map row_email (get_unsent_emails 30 (save_companies_to_csv (\<lambda>c. ''SA'')
       [found ''B Corp'' ''a@b.com'', found ''B Corp Ltd'' ''a@b.com''] ''Riyadh'' empty_ledger)) =
     [''a@b.com'', ''a@b.com'']"
  by (simp add: save_companies_to_csv_def read_csv_def to_csv_def empty_ledger_def found_def
      get_unsent_emails_def head_def)

text \<open>
  C9. Once \<open>mark_email_as_sent\<close> has recorded an outcome for an address, with any status,
  no later \<open>get_unsent_emails\<close> returns a row of that address, whatever operations of the
  system run in between and whatever the limit; and the pending batch after recording
  \<open>failed\<close> is the pending batch after recording \<open>sent\<close>.
\<close>

theorem C9_never_requeued:
  assumes "sent_emails_file L = Table ss"
  shows "a \<notin> set (map row_email
           (get_unsent_emails limit (run ops (mark_email_as_sent a n d st L)))) \<and>
         get_unsent_emails limit (mark_email_as_sent a n d ''failed'' L) =
         get_unsent_emails limit (mark_email_as_sent a n d ''sent'' L)"
proof -
  have "recorded a (mark_email_as_sent a n d st L)"
    using assms by (simp add: mark_email_as_sent_Table recorded_def)
  then have "a \<notin> set (map row_email
      (get_unsent_emails limit (run ops (mark_email_as_sent a n d st L))))"
    by (intro recorded_not_unsent recorded_run)
  moreover have "get_unsent_emails limit (mark_email_as_sent a n d ''failed'' L) =
      get_unsent_emails limit (mark_email_as_sent a n d ''sent'' L)"
    using assms
    by (cases "csv_file L") (simp_all add: get_unsent_emails_def read_csv_def
        mark_email_as_sent_Table)
  ultimately show ?thesis
    by (rule conjI)
qed

theorem C9_never_requeued_witness:
  "sent_emails_file five_pending = Table [] \<and>
   ''a@x.com'' \<notin> set (map row_email (get_unsent_emails 30
      (run [Send_emails_job (\<lambda>a n. False) ''2024-05-02 14:00:00'',
            Save_companies_to_csv (\<lambda>c. ''SA'') [found ''Tech Solutions'' ''a@x.com''] ''Riyadh'',
            Setup_csv_files]
         (mark_email_as_sent ''a@x.com'' ''Tech Solutions'' ''2024-05-01 14:00:00'' ''failed''
            five_pending))))"
proof -
  have h: "sent_emails_file five_pending = Table []"
    by (simp add: five_pending_def)
  from h C9_never_requeued [OF h, THEN conjunct1] show ?thesis
    by (intro conjI)
qed


section \<open>Properties of the deduplication cache\<close>


lemma update_maintained:
  assumes "maintained_free metadata"
  shows "fmlookup (update d metadata) ''visit_count'' = fmlookup d ''visit_count''"
    and "fmlookup (update d metadata) ''timestamp'' = fmlookup d ''timestamp''"
  using assms
  by (auto simp: update_def maintained_free_def split: option.splits if_splits)

lemma current_count_add_one:
  assumes "current_count st k = Some c"
  shows "add_one (get (case fmlookup st k of None \<Rightarrow> fmempty | Some data \<Rightarrow> data)
           ''visit_count'' (PInt 0)) = Some (PInt (c + 1))"
  using assms
  by (auto simp: current_count_def add_one_def get_def split: option.splits pyval.splits)

lemma mark_link_step:
  assumes "normalize_url url = k" and "k \<noteq> []"
    and "current_count (visited_links self) k = Some c"
    and "maintained_free metadata"
  shows "\<exists>self1. mark_link_visited now url scraper_name metadata self = Inr self1 \<and>
     entry_field (visited_links self1) k ''visit_count'' = Some (PInt (c + 1)) \<and>
     entry_field (visited_links self1) k ''timestamp'' = Some (PTime now) \<and>
     current_count (visited_links self1) k = Some (c + 1) \<and>
     fmdom (visited_links self1) = finsert k (fmdom (visited_links self)) \<and>
     expire_days self1 = expire_days self"
  using assms(2)
  by (simp add: mark_link_visited_def Let_def assms(1) current_count_add_one [OF assms(3)]
      entry_field_def current_count_def update_maintained [OF assms(4)])

lemma update_nonempty:
  "fmlookup d ''timestamp'' = Some v \<Longrightarrow> maintained_free metadata \<Longrightarrow>
   update d metadata \<noteq> fmempty"
  by (metis update_maintained(2) fmempty_lookup option.distinct(1))

lemma is_link_visited_inside_window:
  assumes "normalize_url url = k" and "k \<noteq> []"
    and "entry_field (visited_links self) k ''timestamp'' = Some (PTime t)"
    and "expire_days self \<le> 0 \<or>
         (expire_days self * day_us \<le> now \<and> now - expire_days self * day_us \<le> t)"
  shows "is_link_visited now url self = (True, self)"
proof -
  from assms(3) obtain e where e: "fmlookup (visited_links self) k = Some e"
      "fmlookup e ''timestamp'' = Some (PTime t)"
    by (auto simp: entry_field_def split: option.splits)
  from e(2) have "e \<noteq> fmempty"
    by auto
  moreover have "\<not> is_expired now (expire_days self) (get e ''timestamp'' (PStr []))"
    using assms(4) e(2) by (auto simp: is_expired_def get_def fromisoformat_def)
  ultimately show ?thesis
    using assms(1,2) e(1) by (simp add: is_link_visited_def Let_def)
qed

lemma is_expired_stale:
  assumes "days \<le> 0 \<or> days * day_us \<le> now"
  shows "is_expired now days (get e ''timestamp'' (PStr [])) = stale now days e"
  using assms
  by (auto simp: is_expired_def stale_def get_def fromisoformat_def
      split: option.splits pyval.splits)

lemma fcard_fmdom_fmdrop:
  "fmlookup m k = Some e \<Longrightarrow> fcard (fmdom (fmdrop k m)) + 1 = fcard (fmdom m)"
proof -
  assume "fmlookup m k = Some e"
  then have "k |\<in>| fmdom m"
    by (rule fmdomI)
  then have "Suc (fcard (fmdom m |-| {|k|})) = fcard (fmdom m)"
    by (rule fcard_Suc_fminus1)
  then show ?thesis
    by (simp only: fmdom_drop Suc_eq_plus1)
qed

lemma normalize_path: "normalize_url ''HTTP://Example.com/path/'' = ''http://example.com/path''"
  by (rule normalize_example_upper)

text \<open>
  C4 (as stated, refuted). Two \<open>mark_link_visited\<close> calls for the same URL whose metadata
  carries \<open>visit_count = 7\<close> both return, and the stored visit count is 7 after the second
  call, not 2: the metadata is merged over the incremented count.
\<close>

theorem C4_metadata_count_counterexample:
  "\<exists>self1 self2.
     mark_link_visited 63840000000000000 ''HTTP://Example.com/path/'' ''crawler''
       (Some (fmupd ''visit_count'' (PInt 7) fmempty)) (empty_manager 30) = Inr self1 \<and>
     mark_link_visited 63840000001000000 ''HTTP://Example.com/path/'' ''crawler''
       (Some (fmupd ''visit_count'' (PInt 7) fmempty)) self1 = Inr self2 \<and>
     entry_field (visited_links self2) ''http://example.com/path'' ''visit_count'' =
       Some (PInt 7) \<and>
     entry_field (visited_links self2) ''http://example.com/path'' ''visit_count'' \<noteq>
       Some (PInt 2)"
proof -
  let ?md = "Some (fmupd ''visit_count'' (PInt 7) fmempty)"
  obtain self1 where s1: "mark_link_visited 63840000000000000 ''HTTP://Example.com/path/''
      ''crawler'' ?md (empty_manager 30) = Inr self1"
    and c1: "entry_field (visited_links self1) ''http://example.com/path'' ''visit_count'' =
      Some (PInt 7)"
    by (simp add: mark_link_visited_def normalize_path empty_manager_def get_def add_one_def
        entry_field_def update_def)
  obtain self2 where s2: "mark_link_visited 63840000001000000 ''HTTP://Example.com/path/''
      ''crawler'' ?md self1 = Inr self2"
    and c2: "entry_field (visited_links self2) ''http://example.com/path'' ''visit_count'' =
      Some (PInt 7)"
    using c1
    by (auto simp: mark_link_visited_def normalize_path get_def add_one_def
        entry_field_def update_def split: option.splits)
  from s1 s2 c2 show ?thesis
    by auto
qed

text \<open>
  C4 (amended). For a URL with a non-empty key whose stored visit count is an integer \<open>c\<close>
  (0 when the key is absent), and calls whose metadata carries neither \<open>visit_count\<close> nor
  \<open>timestamp\<close>: the first \<open>mark_link_visited\<close> stores the count \<open>c + 1\<close> (1 for a new key)
  and the time of the call, the second stores \<open>c + 2\<close> and its own time, the key set after
  the second call is the key set after the first, and \<open>is_link_visited\<close> answers true after
  either call when it is asked inside the retention window.
\<close>

theorem C4_mark_twice:
  assumes "normalize_url url = k" and "k \<noteq> []"
    and "current_count (visited_links self) k = Some c"
    and "maintained_free md1" and "maintained_free md2"
    and "expire_days self \<le> 0 \<or>
         (expire_days self * day_us \<le> ta \<and> ta - expire_days self * day_us \<le> t1)"
    and "expire_days self \<le> 0 \<or>
         (expire_days self * day_us \<le> tb \<and> tb - expire_days self * day_us \<le> t2)"
  shows "\<exists>self1 self2.
     mark_link_visited t1 url scraper1 md1 self = Inr self1 \<and>
     entry_field (visited_links self1) k ''visit_count'' = Some (PInt (c + 1)) \<and>
     entry_field (visited_links self1) k ''timestamp'' = Some (PTime t1) \<and>
     is_link_visited ta url self1 = (True, self1) \<and>
     mark_link_visited t2 url scraper2 md2 self1 = Inr self2 \<and>
     entry_field (visited_links self2) k ''visit_count'' = Some (PInt (c + 2)) \<and>
     entry_field (visited_links self2) k ''timestamp'' = Some (PTime t2) \<and>
     is_link_visited tb url self2 = (True, self2) \<and>
     fmdom (visited_links self2) = fmdom (visited_links self1) \<and>
     fcard (fmdom (visited_links self2)) = fcard (fmdom (visited_links self1))"
proof -
  from mark_link_step [OF assms(1,2,3,4), of t1 scraper1]
  obtain self1 where s1: "mark_link_visited t1 url scraper1 md1 self = Inr self1"
      "entry_field (visited_links self1) k ''visit_count'' = Some (PInt (c + 1))"
      "entry_field (visited_links self1) k ''timestamp'' = Some (PTime t1)"
      "current_count (visited_links self1) k = Some (c + 1)"
      "fmdom (visited_links self1) = finsert k (fmdom (visited_links self))"
      "expire_days self1 = expire_days self"
    by blast
  from mark_link_step [OF assms(1,2) s1(4) assms(5), of t2 scraper2]
  obtain self2 where s2: "mark_link_visited t2 url scraper2 md2 self1 = Inr self2"
      "entry_field (visited_links self2) k ''visit_count'' = Some (PInt (c + 1 + 1))"
      "entry_field (visited_links self2) k ''timestamp'' = Some (PTime t2)"
      "fmdom (visited_links self2) = finsert k (fmdom (visited_links self1))"
      "expire_days self2 = expire_days self1"
    by blast
  have v1: "is_link_visited ta url self1 = (True, self1)"
    using assms(1,2) s1(3) assms(6) unfolding s1(6) [symmetric]
    by (rule is_link_visited_inside_window)
  have v2: "is_link_visited tb url self2 = (True, self2)"
    using assms(1,2) s2(3) assms(7) unfolding s1(6) [symmetric] s2(5) [symmetric]
    by (rule is_link_visited_inside_window)
  have dom: "fmdom (visited_links self2) = fmdom (visited_links self1)"
    unfolding s2(4) s1(5) by simp
  have two: "entry_field (visited_links self2) k ''visit_count'' = Some (PInt (c + 2))"
    using s2(2) by (simp add: add.assoc)
  from s1(1,2,3) v1 s2(1) two s2(3) v2 dom show ?thesis
    by auto
qed

theorem C4_mark_twice_witness:
  "\<exists>self1 self2.
     mark_link_visited 63840000000000000 ''HTTP://Example.com/path/'' ''crawler'' None
       (empty_manager 30) = Inr self1 \<and>
     entry_field (visited_links self1) ''http://example.com/path'' ''visit_count'' =
       Some (PInt 1) \<and>
     is_link_visited 63840000000000000 ''HTTP://Example.com/path/'' self1 = (True, self1) \<and>
     mark_link_visited 63840000001000000 ''HTTP://Example.com/path/'' ''crawler''
       (Some (fmupd ''title'' (PStr ''Home'') fmempty)) self1 = Inr self2 \<and>
     entry_field (visited_links self2) ''http://example.com/path'' ''visit_count'' =
       Some (PInt 2) \<and>
     entry_field (visited_links self2) ''http://example.com/path'' ''timestamp'' =
       Some (PTime 63840000001000000) \<and>
     is_link_visited 63840000001000000 ''HTTP://Example.com/path/'' self2 = (True, self2) \<and>
     fcard (fmdom (visited_links self2)) = fcard (fmdom (visited_links self1))"
proof -
  have h1: "normalize_url ''HTTP://Example.com/path/'' = ''http://example.com/path''"
    by (rule normalize_path)
  have h2: "''http://example.com/path'' \<noteq> []"
    by simp
  have h3: "current_count (visited_links (empty_manager 30)) ''http://example.com/path'' = Some 0"
    by (simp add: current_count_def empty_manager_def)
  have h4: "maintained_free None"
    by (simp add: maintained_free_def)
  have h5: "maintained_free (Some (fmupd ''title'' (PStr ''Home'') fmempty))"
    by (simp add: maintained_free_def)
  have h6: "expire_days (empty_manager 30) \<le> 0 \<or>
      (expire_days (empty_manager 30) * day_us \<le> 63840000000000000 \<and>
       63840000000000000 - expire_days (empty_manager 30) * day_us \<le> 63840000000000000)"
    by (simp add: empty_manager_def day_us_def)
  have h7: "expire_days (empty_manager 30) \<le> 0 \<or>
      (expire_days (empty_manager 30) * day_us \<le> 63840000001000000 \<and>
       63840000001000000 - expire_days (empty_manager 30) * day_us \<le> 63840000001000000)"
    by (simp add: empty_manager_def day_us_def)
  from C4_mark_twice [OF h1 h2 h3 h4 h5 h6 h7, of "''crawler''" "''crawler''"]
  show ?thesis
    by (simp del: fmdom_fmupd) blast
qed

text \<open>
  C5 (as stated, refuted). A link is marked with metadata whose \<open>timestamp\<close> is not an ISO
  date, under a retention of 30 days. The key is present and the age of the entry does not
  exceed the retention window, yet \<open>is_link_visited\<close>, asked at the same instant, answers
  false and removes the entry.
\<close>

theorem C5_unparsable_timestamp_counterexample:
  "\<exists>self1 e.
     mark_link_visited 63840000000000000 ''HTTP://Example.com/path/'' ''crawler''
       (Some (fmupd ''timestamp'' (PStr ''yesterday'') fmempty)) (empty_manager 30) = Inr self1 \<and>
     fmlookup (visited_links self1) ''http://example.com/path'' = Some e \<and>
     \<not> age_exceeds_retention 63840000000000000 30 e \<and>
     is_link_visited 63840000000000000 ''HTTP://Example.com/path/'' self1 =
       (False, empty_manager 30)"
proof -
  let ?e = "update (fmupd ''visit_count'' (PInt 1)
                     (fmupd ''scraper'' (PStr ''crawler'')
                        (fmupd ''timestamp'' (PTime 63840000000000000) fmempty)))
              (Some (fmupd ''timestamp'' (PStr ''yesterday'') fmempty))"
  let ?self1 = "(empty_manager 30)\<lparr>visited_links := fmupd ''http://example.com/path'' ?e fmempty\<rparr>"
  have ts: "fmlookup ?e ''timestamp'' = Some (PStr ''yesterday'')"
    by (simp add: update_def)
  have m: "mark_link_visited 63840000000000000 ''HTTP://Example.com/path/'' ''crawler''
       (Some (fmupd ''timestamp'' (PStr ''yesterday'') fmempty)) (empty_manager 30) = Inr ?self1"
    by (simp add: mark_link_visited_def normalize_path empty_manager_def get_def add_one_def)
  have l: "fmlookup (visited_links ?self1) ''http://example.com/path'' = Some ?e"
    by simp
  have a: "\<not> age_exceeds_retention 63840000000000000 30 ?e"
    by (simp add: age_exceeds_retention_def ts)
  have ne: "?e \<noteq> fmempty"
    using ts by (metis fmempty_lookup option.distinct(1))
  have v: "is_link_visited 63840000000000000 ''HTTP://Example.com/path/'' ?self1 =
       (False, empty_manager 30)"
    using ne by (simp add: is_link_visited_def Let_def normalize_path get_def ts is_expired_def
        fromisoformat_def empty_manager_def fmdrop_fmupd_same)
  from m l a v show ?thesis
    by blast
qed

text \<open>
  C5 (amended). \<open>is_link_visited\<close> answers false and changes nothing when the key is empty
  or absent; when the key is present and the entry is stale (positive retention, and a
  timestamp that is missing, unreadable or older than the retention window) it removes the
  entry and answers false, and the number of keys shrinks by one; otherwise (retention 0 or
  negative, or a readable timestamp inside the window) it answers true and changes nothing.
  Assumed: the stored entry is not the empty dictionary, and the start of the retention
  window is a representable datetime.
\<close>

theorem C5_is_link_visited:
  assumes "normalize_url url = k"
    and "fmlookup (visited_links self) k \<noteq> Some fmempty"
    and "expire_days self \<le> 0 \<or> expire_days self * day_us \<le> now"
  shows "is_link_visited now url self =
           (if k = [] then (False, self)
            else (case fmlookup (visited_links self) k of
                    None \<Rightarrow> (False, self)
                  | Some e \<Rightarrow>
                      if stale now (expire_days self) e
                      then (False, self\<lparr>visited_links := fmdrop k (visited_links self)\<rparr>)
                      else (True, self))) \<and>
         fcard (fmdom (visited_links (snd (is_link_visited now url self)))) +
           (if k = [] then 0
            else (case fmlookup (visited_links self) k of
                    None \<Rightarrow> 0
                  | Some e \<Rightarrow> if stale now (expire_days self) e then 1 else 0)) =
         fcard (fmdom (visited_links self))"
proof -
  have eq: "is_link_visited now url self =
           (if k = [] then (False, self)
            else (case fmlookup (visited_links self) k of
                    None \<Rightarrow> (False, self)
                  | Some e \<Rightarrow>
                      if stale now (expire_days self) e
                      then (False, self\<lparr>visited_links := fmdrop k (visited_links self)\<rparr>)
                      else (True, self)))"
    using assms(2)
    by (auto simp: is_link_visited_def Let_def assms(1) is_expired_stale [OF assms(3)]
        split: option.splits)
  show ?thesis
    unfolding eq
    using fcard_fmdom_fmdrop [of "visited_links self" k]
    by (auto split: option.splits)
qed

theorem C5_is_link_visited_witness:
  "is_link_visited (63840000000000000 + 2 * day_us) ''HTTP://Example.com/path/''
     (marked_once 1 63840000000000000) = (False, empty_manager 1) \<and>
   fcard (fmdom (visited_links (marked_once 1 63840000000000000))) = 1 \<and>
   fcard (fmdom (visited_links (empty_manager 1))) = 0 \<and>
   is_link_visited (63840000000000000 + 2 * day_us) ''HTTP://Example.com/path/''
     (marked_once 0 63840000000000000) = (True, marked_once 0 63840000000000000)"
proof -
  let ?k = "''http://example.com/path''"
  let ?now = "63840000000000000 + 2 * day_us"
  have h1: "normalize_url ''HTTP://Example.com/path/'' = ?k"
    by (rule normalize_path)
  have h2: "fmlookup (visited_links (marked_once d 63840000000000000)) ?k \<noteq> Some fmempty" for d
    by (simp add: marked_once_def)
  have h3: "expire_days (marked_once 1 63840000000000000) \<le> 0 \<or>
      expire_days (marked_once 1 63840000000000000) * day_us \<le> ?now"
    by (simp add: marked_once_def day_us_def)
  have h3': "expire_days (marked_once 0 63840000000000000) \<le> 0 \<or>
      expire_days (marked_once 0 63840000000000000) * day_us \<le> ?now"
    by (simp add: marked_once_def)
  have one: "is_link_visited ?now ''HTTP://Example.com/path/''
     (marked_once 1 63840000000000000) = (False, empty_manager 1)"
    using C5_is_link_visited [OF h1 h2 h3, THEN conjunct1]
    by (simp add: marked_once_def empty_manager_def stale_def day_us_def fmdrop_fmupd_same)
  have zero: "is_link_visited ?now ''HTTP://Example.com/path/''
     (marked_once 0 63840000000000000) = (True, marked_once 0 63840000000000000)"
    using C5_is_link_visited [OF h1 h2 h3', THEN conjunct1]
    by (simp add: marked_once_def stale_def)
  have c1: "fcard (fmdom (visited_links (marked_once 1 63840000000000000))) = 1"
    by (simp add: marked_once_def fcard_finsert_if fcard_fempty)
  have c0: "fcard (fmdom (visited_links (empty_manager 1))) = 0"
    by (simp add: empty_manager_def fcard_fempty)
  from one c1 c0 zero show ?thesis
    by (intro conjI)
qed

text \<open>
  Loading: a missing, unreadable or non-JSON file, a document that is no object, and an
  object without the key \<open>visited_links\<close> give the empty cache; a well-formed snapshot gives
  its stored mapping.
\<close>

lemma load_fails_open:
  "load_visited_links No_file = PDict fmempty"
  "load_visited_links Unreadable_file = PDict fmempty"
  "load_visited_links Not_json = PDict fmempty"
  "fmlookup d ''visited_links'' = None \<Longrightarrow> load_visited_links (Json (PDict d)) = PDict fmempty"
  "load_visited_links (Json (PList xs)) = PDict fmempty"
  "load_visited_links (Json (PStr s)) = PDict fmempty"
  by (simp_all add: load_visited_links_def)

lemma load_well_formed:
  "fmlookup d ''visited_links'' = Some (PDict m) \<Longrightarrow>
   load_visited_links (Json (PDict d)) = PDict m"
  by (simp add: load_visited_links_def)

text \<open>
  C8 (the code misses a case). A snapshot that is valid JSON but holds a list, or
  \<open>null\<close>, under \<open>visited_links\<close> is not persisted-cache data, and loading it does not
  give the empty cache: the list, or \<open>None\<close>, becomes the link store, and with the
  default retention of 30 days the clean-up that the constructor runs next raises.
\<close>

theorem C8_wrong_shape_is_loaded:
  "load_visited_links (Json (PDict (fmupd ''visited_links'' (PList [PInt 1]) fmempty))) =
     PList [PInt 1] \<and>
   load_visited_links (Json (PDict (fmupd ''visited_links'' PNone fmempty))) = PNone \<and>
   cleanup_expired_links 63840000000000000 30
     (load_visited_links (Json (PDict (fmupd ''visited_links'' (PList [PInt 1]) fmempty)))) =
     Inl AttributeError"
  by (simp add: load_visited_links_def cleanup_expired_links_def)



end
